theory Spec2Isabelle
  imports Complex_Main "HOL-Library.Sublist"
begin

section \<open>JavaScript strings\<close>

text \<open>
  A JavaScript string is modelled as a \<open>string\<close>: one \<open>char\<close> per code unit, for code
  units below 256 (Latin-1). \<open>includes\<close> (here \<open>includes_str\<close>), \<open>startsWith\<close> and
  \<open>endsWith\<close> of the empty string are true, as in JavaScript.
\<close>

definition includes_str :: "string \<Rightarrow> string \<Rightarrow> bool" where
  "includes_str s t = sublist t s"

definition startsWith :: "string \<Rightarrow> string \<Rightarrow> bool" where
  "startsWith s t = prefix t s"

definition endsWith :: "string \<Rightarrow> string \<Rightarrow> bool" where
  "endsWith s t = suffix t s"

text \<open>\<open>s.slice(n)\<close> for a non-negative \<open>n\<close>.\<close>

definition slice_from :: "nat \<Rightarrow> string \<Rightarrow> string" where
  "slice_from n s = drop n s"

text \<open>The class \<open>\s\<close> of a regular expression, which is also what \<open>trim\<close> strips.\<close>

definition isSpace :: "char \<Rightarrow> bool" where
  "isSpace c = (of_char c \<in> set [9, 10, 11, 12, 13, 32, 160 :: nat])"

text \<open>The class \<open>\d\<close>; \<open>isDigits\<close> is \<open>/^\d+$/.test\<close>.\<close>

definition isDigit :: "char \<Rightarrow> bool" where
  "isDigit c = (c \<in> set ''0123456789'')"

definition isDigits :: "string \<Rightarrow> bool" where
  "isDigits s = (s \<noteq> [] \<and> list_all isDigit s)"

definition lowerChar :: "char \<Rightarrow> char" where
  "lowerChar c =
     (let n = (of_char c :: nat)
      in if (65 \<le> n \<and> n \<le> 90) \<or> (192 \<le> n \<and> n \<le> 222 \<and> n \<noteq> 215)
         then char_of (n + 32) else c)"

definition toLowerCase :: "string \<Rightarrow> string" where
  "toLowerCase s = map lowerChar s"

definition trim :: "string \<Rightarrow> string" where
  "trim s = rev (dropWhile isSpace (rev (dropWhile isSpace s)))"

text \<open>
  \<open>s.split(/\s+/)\<close>: the pieces between maximal runs of white space. A leading or a
  trailing run leaves an empty first or last piece, and the empty string gives one empty
  piece. The flag says that the previous character was white space; \<open>cur\<close> is the current
  piece, reversed.
\<close>

fun split_ws_from :: "bool \<Rightarrow> string \<Rightarrow> string \<Rightarrow> string list" where
  "split_ws_from insep cur [] = [rev cur]"
| "split_ws_from insep cur (c # cs) =
     (if isSpace c
      then (if insep then split_ws_from True cur cs
            else rev cur # split_ws_from True [] cs)
      else split_ws_from False (c # cur) cs)"

definition split_ws :: "string \<Rightarrow> string list" where
  "split_ws s = split_ws_from False [] s"

text \<open>\<open>s.split(sep)\<close> for a separator of one character.\<close>

fun split_char :: "char \<Rightarrow> string \<Rightarrow> string list" where
  "split_char sep [] = [[]]"
| "split_char sep (c # cs) =
     (if c = sep then [] # split_char sep cs
      else (case split_char sep cs of
              [] \<Rightarrow> [[c]]
            | p # ps \<Rightarrow> (c # p) # ps))"

section \<open>Rows\<close>

text \<open>
  The interface \<open>SheetRow\<close> is declared in \<open>types.ts\<close>. Its fields are the ones the
  components read (\<open>msisdn\<close>, \<open>assignDate\<close>, \<open>category\<close>, \<open>owner\<close>, \<open>statusByCallCenter\<close>);
  \<open>msisdn\<close> holds the string form \<open>String(row.msisdn)\<close>.
\<close>

datatype Status = Open | Reserved

fun String_Status :: "Status \<Rightarrow> string" where
  "String_Status Open = ''Open''"
| "String_Status Reserved = ''Reserved''"

record SheetRow =
  msisdn :: string
  assignDate :: string
  category :: string
  owner :: string
  statusByCallCenter :: Status

definition Object_values :: "SheetRow \<Rightarrow> string list" where
  "Object_values row =
     [msisdn row, assignDate row, category row, owner row,
      String_Status (statusByCallCenter row)]"

section \<open>The table view\<close>

subsection \<open>Display form of a number\<close>

definition formatMsisdn :: "string \<Rightarrow> string" where
  "formatMsisdn msisdnStr =
     (if startsWith msisdnStr ''971'' then ''0'' @ slice_from 3 msisdnStr
      else msisdnStr)"

subsection \<open>Filter\<close>

text \<open>
  The search number of the ``end'' pattern: the terms before a last term \<open>end\<close>,
  joined, when there are at least two terms and the joined string is all digits.
\<close>

definition endPattern :: "string list \<Rightarrow> string option" where
  "endPattern searchTerms =
     (if 2 \<le> length searchTerms \<and> last searchTerms = ''end''
      then (let searchNumber = concat (butlast searchTerms)
            in if isDigits searchNumber then Some searchNumber else None)
      else None)"

text \<open>
  The callback of \<open>searchTerms.every\<close>. A term with a colon is split at the colons; the
  first two pieces, trimmed, are the category and the number to look for, and a missing
  or empty piece rejects the row.
\<close>

definition termMatches :: "string list \<Rightarrow> SheetRow \<Rightarrow> string \<Rightarrow> bool" where
  "termMatches searchTerms row term =
     (case endPattern searchTerms of
        Some searchNumber \<Rightarrow> endsWith (formatMsisdn (msisdn row)) searchNumber
      | None \<Rightarrow>
          if CHR '':'' \<in> set term
          then (case map trim (split_char CHR '':'' term) of
                  categorySearch # numberSearch # _ \<Rightarrow>
                    if categorySearch = [] \<or> numberSearch = [] then False
                    else includes_str (toLowerCase (category row)) categorySearch
                         \<and> includes_str (msisdn row) numberSearch
                | _ \<Rightarrow> False)
          else if isDigits term \<and> includes_str (msisdn row) term then True
          else if includes_str (toLowerCase (category row)) term then True
          else if includes_str (msisdn row) term then True
          else list_ex (\<lambda>value. includes_str (toLowerCase value) term) (Object_values row))"

definition searchTerms_of :: "string \<Rightarrow> string list" where
  "searchTerms_of search = split_ws (trim (toLowerCase search))"

definition filteredData :: "SheetRow list \<Rightarrow> string \<Rightarrow> SheetRow list" where
  "filteredData data search =
     (if trim search = [] then data
      else (let searchTerms = searchTerms_of search
            in filter (\<lambda>row. list_all (termMatches searchTerms row) searchTerms) data))"

subsection \<open>Sort\<close>

datatype Field = F_msisdn | F_assignDate | F_category | F_owner | F_statusByCallCenter

datatype Direction = asc | desc

fun fieldString :: "Field \<Rightarrow> SheetRow \<Rightarrow> string" where
  "fieldString F_msisdn row = msisdn row"
| "fieldString F_assignDate row = assignDate row"
| "fieldString F_category row = category row"
| "fieldString F_owner row = owner row"
| "fieldString F_statusByCallCenter row = String_Status (statusByCallCenter row)"

text \<open>
  \<open>Array.prototype.sort\<close> is stable. It is modelled as the stable insertion sort for the
  comparison function it is given; \<open>localeCompare\<close>, which depends on the locale of the
  browser, is a parameter.
\<close>

fun insert_by :: "('a \<Rightarrow> 'a \<Rightarrow> int) \<Rightarrow> 'a \<Rightarrow> 'a list \<Rightarrow> 'a list" where
  "insert_by cmp x [] = [x]"
| "insert_by cmp x (y # ys) =
     (if cmp x y \<le> 0 then x # y # ys else y # insert_by cmp x ys)"

definition sort_by :: "('a \<Rightarrow> 'a \<Rightarrow> int) \<Rightarrow> 'a list \<Rightarrow> 'a list" where
  "sort_by cmp xs = foldr (insert_by cmp) xs []"

record ViewState =
  search :: string
  sortField :: "Field option"
  sortDirection :: Direction
  pageSize :: int
  currentPage :: int

definition initialView :: ViewState where
  "initialView =
     \<lparr>search = [], sortField = None, sortDirection = asc, pageSize = 10, currentPage = 1\<rparr>"

definition displayData ::
  "(string \<Rightarrow> string \<Rightarrow> int) \<Rightarrow> SheetRow list \<Rightarrow> ViewState \<Rightarrow> SheetRow list" where
  "displayData localeCompare data v =
     (case sortField v of
        None \<Rightarrow> filteredData data (search v)
      | Some f \<Rightarrow>
          sort_by (\<lambda>a b. let aValue = fieldString f a; bValue = fieldString f b
                         in if sortDirection v = asc then localeCompare aValue bValue
                            else localeCompare bValue aValue)
                  (filteredData data (search v)))"

definition handleSort :: "Field \<Rightarrow> ViewState \<Rightarrow> ViewState" where
  "handleSort field v =
     (if Some field = sortField v
      then v\<lparr>sortDirection := (if sortDirection v = asc then desc else asc)\<rparr>
      else v\<lparr>sortField := Some field, sortDirection := asc\<rparr>)"

subsection \<open>Pages\<close>

text \<open>
  \<open>xs.slice(start, end)\<close>: a negative index counts from the end, and both indices are
  clamped to the length.
\<close>

definition js_slice :: "'a list \<Rightarrow> int \<Rightarrow> int \<Rightarrow> 'a list" where
  "js_slice xs start end =
     (let n = int (length xs);
          from = (if start < 0 then max (n + start) 0 else min start n);
          to = (if end < 0 then max (n + end) 0 else min end n)
      in take (nat (to - from)) (drop (nat from) xs))"

text \<open>
  The page size is one of the options of the selector: 10, 20, 50, 100, or -1 for all
  rows. The quotient of a length by such a size is exact in double precision up to
  rounding that \<open>Math.ceil\<close> does not see, so the ceiling is the one of the reals.
  \<open>psize\<close>, \<open>page\<close> and \<open>rows\<close> stand for \<open>pageSize\<close>, \<open>currentPage\<close> and
  \<open>displayData\<close>.
\<close>

definition pageSizeOptions :: "int list" where
  "pageSizeOptions = [10, 20, 50, 100, -1]"

definition totalPages :: "int \<Rightarrow> 'a list \<Rightarrow> int" where
  "totalPages psize rows =
     (if psize = -1 then 1
      else \<lceil>real (length rows) / real_of_int psize\<rceil>)"

definition paginatedData :: "int \<Rightarrow> int \<Rightarrow> 'a list \<Rightarrow> 'a list" where
  "paginatedData psize page rows =
     (if psize = -1 then rows
      else js_slice rows ((page - 1) * psize) (page * psize))"

subsection \<open>Events of the view\<close>

text \<open>
  The handlers of the search box, of the page-size selector and of the two page buttons.
  The next-page handler reads \<open>totalPages\<close> of the current rendering.
\<close>

definition onSearchChange :: "string \<Rightarrow> ViewState \<Rightarrow> ViewState" where
  "onSearchChange value v = v\<lparr>search := value, currentPage := 1\<rparr>"

definition onPageSizeChange :: "int \<Rightarrow> ViewState \<Rightarrow> ViewState" where
  "onPageSizeChange value v = v\<lparr>pageSize := value, currentPage := 1\<rparr>"

definition onPrevClick :: "ViewState \<Rightarrow> ViewState" where
  "onPrevClick v = v\<lparr>currentPage := max 1 (currentPage v - 1)\<rparr>"

definition onNextClick :: "int \<Rightarrow> ViewState \<Rightarrow> ViewState" where
  "onNextClick pages v = v\<lparr>currentPage := min pages (currentPage v + 1)\<rparr>"

text \<open>
  What can happen to a mounted table: an input event, or new rows from the parent. The
  page buttons exist only for a bounded page size, and a disabled button does nothing.
  The parent renders the table only while it has rows to give it, so that an empty
  collection unmounts the table and the next mount starts from the initial state.
\<close>

datatype Event =
    SearchInput string
  | PageSizeSelect int
  | PrevClick
  | NextClick
  | HeaderClick Field
  | NewData "SheetRow list"

fun step ::
  "(string \<Rightarrow> string \<Rightarrow> int) \<Rightarrow> SheetRow list \<times> ViewState \<Rightarrow> Event
     \<Rightarrow> SheetRow list \<times> ViewState" where
  "step lc (rows, v) (SearchInput value) = (rows, onSearchChange value v)"
| "step lc (rows, v) (PageSizeSelect value) = (rows, onPageSizeChange value v)"
| "step lc (rows, v) PrevClick =
     (rows, if pageSize v \<noteq> -1 \<and> currentPage v \<noteq> 1 then onPrevClick v else v)"
| "step lc (rows, v) NextClick =
     (let pages = totalPages (pageSize v) (displayData lc rows v)
      in (rows, if pageSize v \<noteq> -1 \<and> currentPage v \<noteq> pages
                then onNextClick pages v else v))"
| "step lc (rows, v) (HeaderClick field) = (rows, handleSort field v)"
| "step lc (rows, v) (NewData rows') = (rows', if rows' = [] then initialView else v)"

definition run ::
  "(string \<Rightarrow> string \<Rightarrow> int) \<Rightarrow> SheetRow list \<times> ViewState \<Rightarrow> Event list
     \<Rightarrow> SheetRow list \<times> ViewState" where
  "run lc c evs = foldl (step lc) c evs"


subsection \<open>Status edits in the table\<close>

text \<open>\<open>xs[i]\<close> read as an option: \<open>undefined\<close> is \<open>None\<close>.\<close>

definition js_index :: "'a list \<Rightarrow> int \<Rightarrow> 'a option" where
  "js_index xs i = (if 0 \<le> i \<and> i < int (length xs) then Some (xs ! nat i) else None)"

text \<open>\<open>findIndex\<close>, with \<open>None\<close> for -1.\<close>

fun findIndex :: "('a \<Rightarrow> bool) \<Rightarrow> 'a list \<Rightarrow> nat option" where
  "findIndex P [] = None"
| "findIndex P (x # xs) = (if P x then Some 0 else map_option Suc (findIndex P xs))"

text \<open>
  The handler of the status selector of a displayed row. \<open>confirmed\<close> is the answer to
  the confirmation dialog, which is shown for \<open>Reserved\<close> only. The result is the call
  of \<open>onStatusChange\<close> that the handler makes, if it makes one.
\<close>

definition table_handleStatusChange ::
  "(string \<Rightarrow> string \<Rightarrow> int) \<Rightarrow> SheetRow list \<Rightarrow> ViewState \<Rightarrow> int \<Rightarrow> Status \<Rightarrow> bool
     \<Rightarrow> (nat \<times> Status) option" where
  "table_handleStatusChange lc rows v displayIndex status confirmed =
     (let actualIndex = (currentPage v - 1) * pageSize v + displayIndex
      in if status = Reserved \<and> \<not> confirmed then None
         else (case js_index (displayData lc rows v) actualIndex of
                 None \<Rightarrow> None
               | Some targetRow \<Rightarrow>
                   (case findIndex (\<lambda>row. msisdn row = msisdn targetRow
                                          \<and> assignDate row = assignDate targetRow) rows of
                      None \<Rightarrow> None
                    | Some originalIndex \<Rightarrow> Some (originalIndex, status))))"

section \<open>The application state\<close>

text \<open>
  The collection is a JavaScript array. A slot holds a row, or, after a write beyond the
  end of the array, an object that has only the status field, or nothing.
\<close>

datatype Obj = Row SheetRow | StatusOnly Status

type_synonym Collection = "Obj option list"

definition js_get :: "Collection \<Rightarrow> int \<Rightarrow> Obj option" where
  "js_get xs i = (if 0 \<le> i \<and> i < int (length xs) then xs ! nat i else None)"

definition js_set :: "Collection \<Rightarrow> nat \<Rightarrow> Obj \<Rightarrow> Collection" where
  "js_set xs i x =
     (if i < length xs then xs[i := Some x]
      else xs @ replicate (i - length xs) None @ [Some x])"

text \<open>\<open>{ ...x, statusByCallCenter: status }\<close>.\<close>

fun withStatus :: "Obj option \<Rightarrow> Status \<Rightarrow> Obj" where
  "withStatus (Some (Row r)) status = Row (r\<lparr>statusByCallCenter := status\<rparr>)"
| "withStatus (Some (StatusOnly _)) status = StatusOnly status"
| "withStatus None status = StatusOnly status"

fun obj_status :: "Obj \<Rightarrow> Status" where
  "obj_status (Row r) = statusByCallCenter r"
| "obj_status (StatusOnly status) = status"

text \<open>The template strings \<open>${row.msisdn}\<close> and \<open>${row.msisdn}-${row.assignDate}\<close>.\<close>

fun obj_msisdn :: "Obj \<Rightarrow> string" where
  "obj_msisdn (Row r) = msisdn r"
| "obj_msisdn (StatusOnly _) = ''undefined''"

fun updateKey_of :: "Obj \<Rightarrow> string" where
  "updateKey_of (Row r) = msisdn r @ ''-'' @ assignDate r"
| "updateKey_of (StatusOnly _) = ''undefined-undefined''"

datatype ToastType = success | error

record ToastState =
  message :: string
  type :: ToastType

record AppState =
  data :: Collection
  loading :: bool
  errorText :: "string option"
  refreshing :: bool
  toast :: "ToastState option"
  selectedCategory :: "string option"
  lastFetchTime :: nat
  pendingUpdates :: "string \<rightharpoonup> bool"

text \<open>What a step of a handler does outside the state.\<close>

datatype Effect =
    UpdateStatus int Status
  | FetchSheetData
  | ShowToast ToastState

subsection \<open>Loading\<close>

text \<open>
  \<open>loadData\<close> runs up to the call of \<open>fetchSheetData\<close>, and continues when the call
  has returned the rows or has failed. \<open>now\<close> is \<open>Date.now()\<close>.
\<close>

definition loadData_begin :: "bool \<Rightarrow> AppState \<Rightarrow> AppState \<times> Effect list" where
  "loadData_begin showLoading s =
     ((if showLoading then s\<lparr>refreshing := True\<rparr> else s)\<lparr>errorText := None\<rparr>,
      [FetchSheetData])"

definition loadData_finally :: "bool \<Rightarrow> AppState \<Rightarrow> AppState" where
  "loadData_finally showLoading s =
     (if showLoading then s\<lparr>refreshing := False\<rparr> else s)\<lparr>loading := False\<rparr>"

definition loadData_resolved :: "bool \<Rightarrow> SheetRow list \<Rightarrow> nat \<Rightarrow> AppState \<Rightarrow> AppState" where
  "loadData_resolved showLoading sheetData now s =
     loadData_finally showLoading
       (s\<lparr>pendingUpdates := Map.empty, data := map (\<lambda>r. Some (Row r)) sheetData,
          lastFetchTime := now\<rparr>)"

definition loadData_rejected :: "bool \<Rightarrow> AppState \<Rightarrow> AppState" where
  "loadData_rejected showLoading s =
     loadData_finally showLoading
       (s\<lparr>errorText := Some ''Failed to load data. Please try again.''\<rparr>)"

subsection \<open>Editing a status\<close>

text \<open>
  \<open>handleStatusChange\<close> is an asynchronous function. Each of its parts, between two
  \<open>await\<close>s, is a function of the state at the time it runs, since every update of the
  state is written as a function of the previous state. The part up to the call of
  \<open>updateStatus\<close> reads the collection and the pending map that the callback closed
  over, \<open>cdata\<close> and \<open>cpending\<close>; the later parts keep its local variables.
\<close>

record EditLocals =
  row :: Obj
  updateKey :: string
  rowIndex :: int
  newStatus :: Status

definition handleStatusChange_begin ::
  "Collection \<Rightarrow> (string \<rightharpoonup> bool) \<Rightarrow> int \<Rightarrow> Status \<Rightarrow> AppState
     \<Rightarrow> AppState \<times> Effect list \<times> EditLocals option" where
  "handleStatusChange_begin cdata cpending i status s =
     (case js_get cdata i of
        None \<Rightarrow> (s, [], None)
      | Some r \<Rightarrow>
          (let key = updateKey_of r
           in if cpending key = Some True then (s, [], None)
              else (s\<lparr>pendingUpdates := (pendingUpdates s)(key \<mapsto> True),
                      data := js_set (data s) (nat i) (withStatus (js_get (data s) i) status)\<rparr>,
                    [UpdateStatus i status],
                    Some \<lparr>row = r, updateKey = key, rowIndex = i, newStatus = status\<rparr>)))"

text \<open>After \<open>updateStatus\<close> has succeeded, up to the call in \<open>loadData\<close>.\<close>

definition handleStatusChange_updated :: "EditLocals \<Rightarrow> AppState \<Rightarrow> AppState \<times> Effect list" where
  "handleStatusChange_updated ed s =
     loadData_begin False (s\<lparr>pendingUpdates := (pendingUpdates s)(updateKey ed := None)\<rparr>)"

text \<open>After the awaited \<open>loadData\<close> has finished.\<close>

definition handleStatusChange_loaded :: "EditLocals \<Rightarrow> AppState \<Rightarrow> AppState \<times> Effect list" where
  "handleStatusChange_loaded ed s =
     (let t = \<lparr>message = ''Number '' @ obj_msisdn (row ed) @ '' has been ''
                            @ toLowerCase (String_Status (newStatus ed)),
                type = success\<rparr>
      in (s\<lparr>toast := Some t\<rparr>, [ShowToast t]))"

text \<open>The \<open>catch\<close> block, after \<open>updateStatus\<close> has failed.\<close>

definition handleStatusChange_failed :: "EditLocals \<Rightarrow> AppState \<Rightarrow> AppState \<times> Effect list" where
  "handleStatusChange_failed ed s =
     (let t = \<lparr>message = ''Failed to update status'', type = error\<rparr>;
          s1 = s\<lparr>pendingUpdates := (pendingUpdates s)(updateKey ed := None)\<rparr>;
          s2 = s1\<lparr>data := js_set (data s1) (nat (rowIndex ed))
                               (withStatus (js_get (data s1) (rowIndex ed))
                                  (obj_status (row ed)))\<rparr>;
          s3 = s2\<lparr>errorText := Some ''Failed to update status. Please try again.''\<rparr>;
          s4 = s3\<lparr>toast := Some t\<rparr>;
          (s5, effs) = loadData_begin False s4
      in (s5, ShowToast t # effs))"

section \<open>Sample data\<close>

definition rowMarketing :: SheetRow where
  "rowMarketing = \<lparr>msisdn = ''9715551234'', assignDate = ''2024-01-15'',
                    category = ''Marketing'', owner = ''Amal'', statusByCallCenter = Open\<rparr>"

definition rowSales :: SheetRow where
  "rowSales = \<lparr>msisdn = ''9715551234'', assignDate = ''2024-02-20'',
                category = ''Sales'', owner = ''Badr'', statusByCallCenter = Reserved\<rparr>"

definition rowSupport :: SheetRow where
  "rowSupport = \<lparr>msisdn = ''9715559876'', assignDate = ''2023-11-02'',
                  category = ''Support'', owner = ''Chen'', statusByCallCenter = Open\<rparr>"

text \<open>
  A comparison of strings by code units, for the examples; no example chooses a sort
  field.
\<close>

fun codeUnitCompare :: "string \<Rightarrow> string \<Rightarrow> int" where
  "codeUnitCompare [] [] = 0"
| "codeUnitCompare [] (y # ys) = -1"
| "codeUnitCompare (x # xs) [] = 1"
| "codeUnitCompare (x # xs) (y # ys) =
     (if (of_char x :: nat) < of_char y then -1
      else if (of_char y :: nat) < of_char x then 1
      else codeUnitCompare xs ys)"

definition sampleRows :: "nat \<Rightarrow> SheetRow list" where
  "sampleRows n =
     map (\<lambda>i. \<lparr>msisdn = ''97155500'' @ [char_of (48 + i div 10), char_of (48 + i mod 10)],
               assignDate = ''2024-03-01'', category = ''Sales'', owner = ''Dana'',
               statusByCallCenter = Open\<rparr>)
         [0 ..< n]"

definition sampleState :: AppState where
  "sampleState =
     \<lparr>data = [Some (Row rowMarketing), Some (Row rowSupport)], loading = False,
      errorText = None, refreshing = False, toast = None, selectedCategory = None,
      lastFetchTime = 0, pendingUpdates = Map.empty\<rparr>"

definition sampleEdit :: EditLocals where
  "sampleEdit =
     \<lparr>row = Row rowMarketing, updateKey = ''9715551234-2024-01-15'', rowIndex = 0,
      newStatus = Reserved\<rparr>"

definition samplePending :: "string \<rightharpoonup> bool" where
  "samplePending = [''9715551234-2024-01-15'' \<mapsto> True]"

text \<open>
  An edit of the first row of \<open>sampleState\<close>, and a refresh that arrives while the
  edit is in flight, with the rows in another order.
\<close>

definition sampleRefresh :: "SheetRow list" where
  "sampleRefresh = [rowSales, rowMarketing\<lparr>statusByCallCenter := Reserved\<rparr>]"

definition sampleAfterEdit :: AppState where
  "sampleAfterEdit =
     fst (handleStatusChange_begin (data sampleState) Map.empty 0 Reserved sampleState)"

definition sampleAfterRefresh :: AppState where
  "sampleAfterRefresh = loadData_resolved False sampleRefresh 1 sampleAfterEdit"


section \<open>Auxiliary facts\<close>

subsection \<open>Strings\<close>

lemma isSpace_lowerChar: "isSpace (lowerChar c) = isSpace c"
proof -
  define n where "n = (of_char c :: nat)"
  have small: "n < 256" by (simp add: n_def)
  show ?thesis
  proof (cases "(65 \<le> n \<and> n \<le> 90) \<or> (192 \<le> n \<and> n \<le> 222 \<and> n \<noteq> 215)")
    case True
    then have l: "lowerChar c = char_of (n + 32)"
      by (simp add: lowerChar_def Let_def n_def)
    have "of_char (char_of (n + 32)) = (n + 32) mod 256" by simp
    also have "\<dots> = n + 32" using True by auto
    finally have o: "(of_char (lowerChar c) :: nat) = n + 32" by (simp add: l)
    have a: "\<not> isSpace (lowerChar c)"
      unfolding isSpace_def o using True by auto
    have b: "\<not> isSpace c"
      unfolding isSpace_def n_def [symmetric] using True by auto
    from a b show ?thesis by simp
  next
    case False
    then have "lowerChar c = c" unfolding lowerChar_def Let_def n_def by auto
    then show ?thesis by simp
  qed
qed

lemma trim_toLowerCase: "trim (toLowerCase s) = toLowerCase (trim s)"
proof -
  have eq: "isSpace \<circ> lowerChar = isSpace"
    by (rule ext) (simp add: isSpace_lowerChar)
  show ?thesis
    by (simp add: trim_def toLowerCase_def dropWhile_map rev_map eq)
qed

lemma searchTerms_of_blank: "trim q = [] \<Longrightarrow> searchTerms_of q = [[]]"
proof -
  assume "trim q = []"
  then have "trim (toLowerCase q) = []"
    by (simp add: trim_toLowerCase) (simp add: toLowerCase_def)
  then show ?thesis by (simp add: searchTerms_of_def split_ws_def)
qed

lemma lowerChar_digit: "isDigit c \<Longrightarrow> lowerChar c = c"
  by (auto simp: isDigit_def lowerChar_def)

lemma toLowerCase_digits: "list_all isDigit t \<Longrightarrow> toLowerCase t = t"
  by (induction t) (simp_all add: toLowerCase_def lowerChar_digit)

lemma includes_toLowerCase:
  assumes "list_all isDigit t" and "includes_str s t"
  shows "includes_str (toLowerCase s) t"
proof -
  have "sublist (map lowerChar t) (map lowerChar s)"
    using assms(2) by (simp add: includes_str_def map_mono_sublist)
  moreover have "map lowerChar t = t"
    using toLowerCase_digits [OF assms(1)] by (simp add: toLowerCase_def)
  ultimately show ?thesis by (simp add: includes_str_def toLowerCase_def)
qed

lemma digit_not_colon: "isDigit c \<Longrightarrow> c \<noteq> CHR '':''"
  by (auto simp: isDigit_def)

lemma digits_no_colon: "list_all isDigit t \<Longrightarrow> CHR '':'' \<notin> set t"
  by (induction t) (auto dest: digit_not_colon)

subsection \<open>Search terms\<close>

lemma endPattern_Some:
  assumes l: "last ts = ''end''" and d: "isDigits (concat (butlast ts))"
  shows "endPattern ts = Some (concat (butlast ts))"
proof -
  from d have "butlast ts \<noteq> []" by (auto simp: isDigits_def)
  then have "2 \<le> length ts" by (cases ts rule: rev_cases) (auto simp: Suc_le_eq)
  with l d show ?thesis by (simp add: endPattern_def)
qed

lemma endPattern_SomeD:
  "endPattern ts = Some n \<Longrightarrow>
   2 \<le> length ts \<and> last ts = ''end'' \<and> n = concat (butlast ts) \<and> isDigits n"
  by (simp add: endPattern_def Let_def split: if_splits)

lemma set_butlast_last: "ts \<noteq> [] \<Longrightarrow> set ts = insert (last ts) (set (butlast ts))"
  by (induction ts) auto

lemma end_terms_no_colon:
  assumes "endPattern ts = Some n" and "t \<in> set ts"
  shows "CHR '':'' \<notin> set t"
proof -
  from endPattern_SomeD [OF assms(1)]
  have len: "2 \<le> length ts" and l: "last ts = ''end''"
    and d: "isDigits (concat (butlast ts))" by auto
  from len have ne: "ts \<noteq> []" by auto
  with assms(2) have "t \<in> set (butlast ts) \<or> t = last ts"
    by (auto simp: set_butlast_last)
  then show ?thesis
  proof
    assume "t \<in> set (butlast ts)"
    with d have "list_all isDigit t" by (auto simp: isDigits_def list_all_iff)
    then show ?thesis by (rule digits_no_colon)
  next
    assume "t = last ts"
    with l show ?thesis by simp
  qed
qed

lemma split_char_nonempty: "split_char sep s \<noteq> []"
  by (induction s) (auto split: list.splits)

lemma split_char_prefix:
  "sep \<notin> set c \<Longrightarrow> split_char sep (c @ sep # rest) = c # split_char sep rest"
  by (induction c) (auto split: list.splits)

lemma hd_split_char: "hd (split_char sep s) = takeWhile (\<lambda>x. x \<noteq> sep) s"
  by (induction s) (auto simp: split_char_nonempty split: list.splits)

subsection \<open>Pages\<close>

lemma js_slice_page:
  assumes "0 < s" and "1 \<le> k"
  shows "js_slice xs ((k - 1) * s) (k * s) = take (nat s) (drop (nat ((k - 1) * s)) xs)"
proof -
  let ?n = "int (length xs)"
  let ?a = "(k - 1) * s"
  have a0: "0 \<le> ?a" using assms by simp
  have b: "k * s = ?a + s" by (simp add: algebra_simps)
  have b0: "0 \<le> k * s" using assms by simp
  show ?thesis
  proof (cases "?a < ?n")
    case True
    then have "take (nat (min (k * s) ?n - ?a)) (drop (nat ?a) xs)
               = take (nat s) (drop (nat ?a) xs)"
      using a0 assms(1) unfolding b by (auto simp: min_def)
    then show ?thesis
      using True a0 b0 by (simp add: js_slice_def Let_def min_def)
  next
    case False
    then have "drop (nat ?a) xs = []" using a0 by simp
    moreover have "drop (nat (min ?a ?n)) xs = []" using False by (simp add: min_def)
    ultimately show ?thesis
      using a0 b0 by (simp add: js_slice_def Let_def)
  qed
qed

lemma totalPages_bounds:
  assumes "0 < s"
  shows "(totalPages s xs - 1) * s < int (length xs) \<and> int (length xs) \<le> totalPages s xs * s"
proof -
  let ?n = "real (length xs)"
  let ?t = "\<lceil>?n / real_of_int s\<rceil>"
  have s0: "0 < real_of_int s" using assms by simp
  have tp: "totalPages s xs = ?t" using assms by (simp add: totalPages_def)
  have up: "?n \<le> real_of_int ?t * real_of_int s"
    using ceiling_divide_upper [OF s0, of ?n] by simp
  have lo: "(real_of_int ?t - 1) * real_of_int s < ?n"
    using ceiling_divide_lower [OF s0, of ?n] by simp
  from up have "real_of_int (int (length xs)) \<le> real_of_int (?t * s)" by simp
  then have u: "int (length xs) \<le> ?t * s" by (simp only: of_int_le_iff)
  from lo have "real_of_int ((?t - 1) * s) < real_of_int (int (length xs))" by simp
  then have l: "(?t - 1) * s < int (length xs)" by (simp only: of_int_less_iff)
  from u l show ?thesis by (simp only: tp) 
qed

lemma totalPages_empty: "psize \<noteq> -1 \<Longrightarrow> totalPages psize [] = 0"
  by (simp add: totalPages_def)

lemma totalPages_pos:
  assumes "0 < s" and "xs \<noteq> []"
  shows "1 \<le> totalPages s xs"
proof -
  from totalPages_bounds [OF assms(1), of xs]
  have "int (length xs) \<le> totalPages s xs * s" by simp
  moreover have "0 < int (length xs)" using assms(2) by simp
  ultimately have "0 < totalPages s xs * s" by linarith
  with assms(1) have "0 < totalPages s xs" by (simp add: zero_less_mult_iff)
  then show ?thesis by simp
qed

subsection \<open>The page index\<close>






text \<open>
  With a bounded page size and a search that no row matches, the number of pages is 0
  and the next-page button is enabled on page 1; a click on it sets the page index to 0.
\<close>

lemma next_click_without_rows:
  "totalPages 10 (displayData codeUnitCompare (sampleRows 1)
                    (onSearchChange ''zzz'' initialView)) = 0
   \<and> currentPage (snd (run codeUnitCompare (sampleRows 1, initialView)
                           [SearchInput ''zzz'', NextClick])) = 0"
  by code_simp

subsection \<open>Status edits\<close>

lemma findIndex_Some: "findIndex P xs = Some i \<Longrightarrow> i < length xs \<and> P (xs ! i)"
  by (induction xs arbitrary: i) (auto split: if_splits)

lemma js_get_Some: "js_get xs i = Some r \<Longrightarrow> 0 \<le> i \<and> nat i < length xs \<and> xs ! nat i = Some r"
  by (auto simp: js_get_def split: if_splits)

lemma withStatus_revert: "withStatus (Some (withStatus (Some r) st)) (obj_status r) = r"
  by (cases r) simp_all

lemma obj_status_withStatus: "obj_status (withStatus x st) = st"
  by (cases "(x, st)" rule: withStatus.cases) simp_all

lemma js_get_js_set: "0 \<le> i \<Longrightarrow> js_get (js_set xs (nat i) x) i = Some x"
  by (auto simp: js_get_def js_set_def nth_append)

lemma begin_locals:
  assumes "snd (snd (handleStatusChange_begin cdata cpending i status s0)) = Some ed"
  shows "js_get cdata i = Some (row ed) \<and> updateKey ed = updateKey_of (row ed)
         \<and> rowIndex ed = i \<and> newStatus ed = status \<and> cpending (updateKey ed) \<noteq> Some True"
  using assms
  by (auto simp: handleStatusChange_begin_def Let_def split: option.splits if_splits)

lemma begin_state:
  assumes "snd (snd (handleStatusChange_begin cdata cpending i status s0)) = Some ed"
  shows "fst (handleStatusChange_begin cdata cpending i status s0) =
         s0\<lparr>pendingUpdates := (pendingUpdates s0)(updateKey ed \<mapsto> True),
            data := js_set (data s0) (nat i) (withStatus (js_get (data s0) i) status)\<rparr>
         \<and> fst (snd (handleStatusChange_begin cdata cpending i status s0)) = [UpdateStatus i status]"
  using assms
  by (auto simp: handleStatusChange_begin_def Let_def split: option.splits if_splits)

lemma failed_state:
  "fst (handleStatusChange_failed ed s) =
     s\<lparr>pendingUpdates := (pendingUpdates s)(updateKey ed := None),
       data := js_set (data s) (nat (rowIndex ed))
                 (withStatus (js_get (data s) (rowIndex ed)) (obj_status (row ed))),
       errorText := None,
       toast := Some \<lparr>message = ''Failed to update status'', type = error\<rparr>\<rparr>"
  by (simp add: handleStatusChange_failed_def loadData_begin_def Let_def)

lemma failed_effects:
  "snd (handleStatusChange_failed ed s) =
     [ShowToast \<lparr>message = ''Failed to update status'', type = error\<rparr>, FetchSheetData]"
  by (simp add: handleStatusChange_failed_def loadData_begin_def Let_def)

text \<open>
  What the \<open>catch\<close> block does to the state \<open>s\<close> in which it runs, for an edit that
  was submitted: it writes into the slot at the index of the edit.
\<close>

lemma failed_at_index:
  assumes "snd (snd (handleStatusChange_begin cdata cpending i status s0)) = Some ed"
  shows "pendingUpdates (fst (handleStatusChange_failed ed s))
           = (pendingUpdates s)(updateKey ed := None)
       \<and> pendingUpdates (fst (handleStatusChange_failed ed s)) (updateKey_of (row ed)) = None
       \<and> js_get cdata i = Some (row ed)
       \<and> map_option obj_status (js_get (data (fst (handleStatusChange_failed ed s))) i)
           = Some (obj_status (row ed))
       \<and> (nat i < length (data s) \<longrightarrow>
            data (fst (handleStatusChange_failed ed s))
              = (data s)[nat i := Some (withStatus (data s ! nat i) (obj_status (row ed)))])
       \<and> (data s0 = cdata \<longrightarrow>
            data (fst (handleStatusChange_failed ed
                         (fst (handleStatusChange_begin cdata cpending i status s0))))
              = data s0)
       \<and> toast (fst (handleStatusChange_failed ed s))
           = Some \<lparr>message = ''Failed to update status'', type = error\<rparr>
       \<and> snd (handleStatusChange_failed ed s)
           = [ShowToast \<lparr>message = ''Failed to update status'', type = error\<rparr>, FetchSheetData]"
proof -
  note l = begin_locals [OF assms]
  from l have g: "js_get cdata i = Some (row ed)" and k: "updateKey ed = updateKey_of (row ed)"
    and ri: "rowIndex ed = i" by simp_all
  from js_get_Some [OF g] have i0: "0 \<le> i" and il: "nat i < length cdata"
    and nth: "cdata ! nat i = Some (row ed)" by simp_all
  have a: "pendingUpdates (fst (handleStatusChange_failed ed s))
           = (pendingUpdates s)(updateKey ed := None)"
    by (simp add: failed_state)
  have b: "pendingUpdates (fst (handleStatusChange_failed ed s)) (updateKey_of (row ed)) = None"
    by (simp add: a k)
  have c: "map_option obj_status (js_get (data (fst (handleStatusChange_failed ed s))) i)
           = Some (obj_status (row ed))"
    using i0 by (simp add: failed_state ri js_get_js_set obj_status_withStatus)
  have d: "nat i < length (data s) \<longrightarrow>
            data (fst (handleStatusChange_failed ed s))
              = (data s)[nat i := Some (withStatus (data s ! nat i) (obj_status (row ed)))]"
    using i0 by (auto simp: failed_state ri js_set_def js_get_def)
  have e: "data (fst (handleStatusChange_failed ed
                         (fst (handleStatusChange_begin cdata cpending i status s0))))
              = data s0" if eq: "data s0 = cdata"
  proof -
    have s1: "data (fst (handleStatusChange_begin cdata cpending i status s0))
              = cdata[nat i := Some (withStatus (Some (row ed)) status)]"
      using begin_state [OF assms] il g by (simp add: eq js_set_def)
    have "js_get (cdata[nat i := Some (withStatus (Some (row ed)) status)]) i
          = Some (withStatus (Some (row ed)) status)"
      using i0 il by (simp add: js_get_def)
    then show ?thesis
      using il nth
      by (simp add: failed_state ri s1 js_set_def withStatus_revert eq list_update_same_conv)
  qed
  have f: "toast (fst (handleStatusChange_failed ed s))
           = Some \<lparr>message = ''Failed to update status'', type = error\<rparr>"
    by (simp add: failed_state)
  from a b g c d e f failed_effects [of ed s] show ?thesis by blast
qed

section \<open>Properties\<close>

text \<open>
  C9. Canonicalising a number twice gives the same string as canonicalising it once, and
  \<open>9715551234\<close> canonicalises to \<open>05551234\<close>.
\<close>

theorem formatMsisdn_idempotent:
  "formatMsisdn (formatMsisdn s) = formatMsisdn s
   \<and> formatMsisdn ''9715551234'' = ''05551234''"
  by (simp add: formatMsisdn_def startsWith_def slice_from_def)

text \<open>
  C8. Filtering is idempotent: filtering the rows that a query keeps by the same query
  again keeps all of them.
\<close>

theorem filteredData_idempotent:
  "filteredData (filteredData rows q) q = filteredData rows q"
  by (simp add: filteredData_def Let_def)

theorem filteredData_idempotent_witness:
  "filteredData (filteredData [rowMarketing, rowSales, rowSupport] ''sales'') ''sales''
   = filteredData [rowMarketing, rowSales, rowSupport] ''sales''"
  using filteredData_idempotent [of "[rowMarketing, rowSales, rowSupport]" "''sales''"] .

text \<open>
  C6. When the last term of a query is \<open>end\<close> and the terms before it, joined, are all
  digits, the query keeps exactly the rows whose canonicalised number ends with these
  digits, whatever their other fields are.
\<close>

theorem end_query:
  assumes "last (searchTerms_of q) = ''end''"
    and "isDigits (concat (butlast (searchTerms_of q)))"
  shows "filteredData rows q =
         filter (\<lambda>r. endsWith (formatMsisdn (msisdn r)) (concat (butlast (searchTerms_of q)))) rows"
proof -
  let ?ts = "searchTerms_of q"
  have ep: "endPattern ?ts = Some (concat (butlast ?ts))"
    using assms by (rule endPattern_Some)
  have ne: "trim q \<noteq> []"
  proof
    assume "trim q = []"
    then have "?ts = [[]]" by (rule searchTerms_of_blank)
    with assms(1) show False by simp
  qed
  from endPattern_SomeD [OF ep] have nonempty: "?ts \<noteq> []" by auto
  have tm: "termMatches ?ts r t
        = endsWith (formatMsisdn (msisdn r)) (concat (butlast ?ts))" for r t
    by (simp add: termMatches_def ep)
  have "list_all (termMatches ?ts r) ?ts
        = endsWith (formatMsisdn (msisdn r)) (concat (butlast ?ts))" for r
    using nonempty by (auto simp: list_all_iff tm)
  with ne show ?thesis by (simp add: filteredData_def Let_def)
qed

theorem end_query_witness:
  "last (searchTerms_of ''1234 end'') = ''end''
   \<and> isDigits (concat (butlast (searchTerms_of ''1234 end'')))
   \<and> filteredData [rowMarketing, rowSales, rowSupport] ''1234 end'' = [rowMarketing, rowSales]"
proof -
  have h1: "last (searchTerms_of ''1234 end'') = ''end''" by code_simp
  have h2: "isDigits (concat (butlast (searchTerms_of ''1234 end'')))" by code_simp
  have "filter (\<lambda>r. endsWith (formatMsisdn (msisdn r))
                      (concat (butlast (searchTerms_of ''1234 end''))))
          [rowMarketing, rowSales, rowSupport] = [rowMarketing, rowSales]"
    by code_simp
  with end_query [OF h1 h2, of "[rowMarketing, rowSales, rowSupport]"] h1 h2
  show ?thesis by simp
qed

text \<open>
  C4, as stated, fails: a term of digits also matches a row through a field other than
  the number. The term \<open>2024\<close> matches a row whose number does not contain it and whose
  assignment date does.
\<close>

theorem digit_term_counterexample:
  "isDigits ''2024'' \<and> endPattern [''2024''] = None
   \<and> \<not> includes_str (msisdn rowMarketing) ''2024''
   \<and> termMatches [''2024''] rowMarketing ''2024''
   \<and> filteredData [rowMarketing] ''2024'' = [rowMarketing]"
  by code_simp

text \<open>
  C4, amended. Outside the ``end'' pattern, a term of digits matches a row if and only
  if the lower-cased string form of one of the fields of the row, the number among them,
  contains the term.
\<close>

theorem digit_term:
  assumes "isDigits t" and "endPattern ts = None"
  shows "termMatches ts r t
         \<longleftrightarrow> list_ex (\<lambda>value. includes_str (toLowerCase value) t) (Object_values r)"
proof -
  from assms(1) have d: "list_all isDigit t" by (simp add: isDigits_def)
  then have nc: "CHR '':'' \<notin> set t" by (rule digits_no_colon)
  have m: "includes_str (msisdn r) t \<Longrightarrow> includes_str (toLowerCase (msisdn r)) t"
    using d by (rule includes_toLowerCase)
  show ?thesis
    using m by (auto simp: termMatches_def assms(2) nc Object_values_def)
qed

theorem digit_term_witness:
  "isDigits ''2024'' \<and> endPattern [''2024''] = None
   \<and> termMatches [''2024''] rowSales ''2024''
   \<and> \<not> termMatches [''2024''] rowSupport ''2024''"
proof -
  have h1: "isDigits ''2024''" by code_simp
  have h2: "endPattern [''2024''] = None" by code_simp
  have a: "list_ex (\<lambda>value. includes_str (toLowerCase value) ''2024'') (Object_values rowSales)"
    by code_simp
  have b: "\<not> list_ex (\<lambda>value. includes_str (toLowerCase value) ''2024'') (Object_values rowSupport)"
    by code_simp
  from digit_term [OF h1 h2, of rowSales] digit_term [OF h1 h2, of rowSupport] a b h1 h2
  show ?thesis by blast
qed

text \<open>
  C5, as stated, fails: a term whose category part or number part is empty matches no
  row. The term \<open>sales:\<close> does not match a row of category \<open>Sales\<close>, although the
  category contains \<open>sales\<close> and every number contains the empty string.
\<close>

theorem colon_term_counterexample:
  "CHR '':'' \<in> set ''sales:''
   \<and> split_char CHR '':'' ''sales:'' = [''sales'', '''']
   \<and> includes_str (toLowerCase (category rowSales)) ''sales''
   \<and> includes_str (msisdn rowSales) ''''
   \<and> \<not> termMatches [''sales:''] rowSales ''sales:''"
  by code_simp

text \<open>
  C5, amended. A term of the query with a colon is split at its colons: the category part
  is what precedes the first colon, the number part is what follows it, up to the next
  colon if there is one. A row matches the term if and only if both parts are not empty,
  the lower-cased category of the row contains the category part and the raw number
  contains the number part.
\<close>

theorem colon_term:
  assumes "t \<in> set ts"
    and "t = categoryPart @ CHR '':'' # rest"
    and "CHR '':'' \<notin> set categoryPart"
  shows "termMatches ts r t
         \<longleftrightarrow> trim categoryPart \<noteq> []
             \<and> trim (takeWhile (\<lambda>c. c \<noteq> CHR '':'') rest) \<noteq> []
             \<and> includes_str (toLowerCase (category r)) (trim categoryPart)
             \<and> includes_str (msisdn r) (trim (takeWhile (\<lambda>c. c \<noteq> CHR '':'') rest))"
proof -
  have colon: "CHR '':'' \<in> set t" using assms(2) by simp
  have ep: "endPattern ts = None"
  proof (cases "endPattern ts")
    case (Some n)
    then show ?thesis using end_terms_no_colon [OF Some assms(1)] colon by simp
  qed simp
  obtain p ps where sp: "split_char CHR '':'' rest = p # ps"
    using split_char_nonempty [of "CHR '':''" rest] by (cases "split_char CHR '':'' rest") auto
  have p: "p = takeWhile (\<lambda>c. c \<noteq> CHR '':'') rest"
    using hd_split_char [of "CHR '':''" rest] sp by simp
  have "split_char CHR '':'' t = categoryPart # p # ps"
    using split_char_prefix [OF assms(3), of rest] sp assms(2) by simp
  then show ?thesis
    using colon by (auto simp: termMatches_def ep p)
qed

theorem colon_term_witness:
  "''marketing:555'' \<in> set (searchTerms_of ''marketing:555'')
   \<and> termMatches (searchTerms_of ''marketing:555'') rowMarketing ''marketing:555''
   \<and> \<not> termMatches (searchTerms_of ''marketing:555'') rowSales ''marketing:555''"
proof -
  have h1: "''marketing:555'' \<in> set (searchTerms_of ''marketing:555'')" by code_simp
  have h2: "''marketing:555'' = ''marketing'' @ CHR '':'' # ''555''" by simp
  have h3: "CHR '':'' \<notin> set ''marketing''" by simp
  have a: "trim ''marketing'' \<noteq> []
      \<and> trim (takeWhile (\<lambda>c. c \<noteq> CHR '':'') ''555'') \<noteq> []
      \<and> includes_str (toLowerCase (category rowMarketing)) (trim ''marketing'')
      \<and> includes_str (msisdn rowMarketing) (trim (takeWhile (\<lambda>c. c \<noteq> CHR '':'') ''555''))"
    by code_simp
  have b: "\<not> includes_str (toLowerCase (category rowSales)) (trim ''marketing'')"
    by code_simp
  from colon_term [OF h1 h2 h3, of rowMarketing] colon_term [OF h1 h2 h3, of rowSales] a b h1
  show ?thesis by blast
qed

text \<open>
  C3, as stated, fails: for a bounded page size and no rows the number of pages is 0, not 1.
\<close>

theorem pagination_counterexample:
  "(0::int) < 10 \<and> \<not> 1 \<le> totalPages 10 ([] :: SheetRow list)"
  by (simp add: totalPages_def)

text \<open>
  C3, amended. For a positive page size \<open>s\<close>, the number of pages is the ceiling of
  the number of rows divided by \<open>s\<close>: 0 for no rows and at least 1 otherwise. Page
  \<open>k\<close>, from 1, holds the rows at the positions from \<open>(k - 1) * s\<close> up to \<open>k * s - 1\<close>
  that exist. For the page size -1 there is one page, which holds all rows.
\<close>

theorem pagination:
  assumes "0 < s" and "1 \<le> k"
  shows "(totalPages s rows - 1) * s < int (length rows)
         \<and> int (length rows) \<le> totalPages s rows * s
         \<and> (rows = [] \<longrightarrow> totalPages s rows = 0)
         \<and> (rows \<noteq> [] \<longrightarrow> 1 \<le> totalPages s rows)
         \<and> paginatedData s k rows = take (nat s) (drop (nat ((k - 1) * s)) rows)
         \<and> length (paginatedData s k rows) = min (nat s) (length rows - nat ((k - 1) * s))
         \<and> (\<forall>i < length (paginatedData s k rows).
               paginatedData s k rows ! i = rows ! (nat ((k - 1) * s) + i))
         \<and> totalPages (-1) rows = 1
         \<and> paginatedData (-1) k rows = rows"
proof -
  have p: "paginatedData s k rows = take (nat s) (drop (nat ((k - 1) * s)) rows)"
    using assms by (simp add: paginatedData_def js_slice_page)
  have e: "rows = [] \<longrightarrow> totalPages s rows = 0"
    using assms(1) by (simp add: totalPages_empty)
  have u: "totalPages (-1) rows = 1" by (simp add: totalPages_def)
  have a: "paginatedData (-1) k rows = rows" by (simp add: paginatedData_def)
  have l: "length (paginatedData s k rows) = min (nat s) (length rows - nat ((k - 1) * s))"
    by (simp add: p min.commute)
  have n: "\<forall>i < length (paginatedData s k rows).
             paginatedData s k rows ! i = rows ! (nat ((k - 1) * s) + i)"
    by (auto simp: p)
  have pos: "rows \<noteq> [] \<longrightarrow> 1 \<le> totalPages s rows"
    using totalPages_pos [OF assms(1), of rows] by blast
  from totalPages_bounds [OF assms(1), of rows] e pos p l n u a
  show ?thesis by blast
qed

theorem pagination_witness:
  "(0::int) < 10 \<and> (1::int) \<le> 3
   \<and> totalPages 10 [1 ..< 26] = 3
   \<and> paginatedData 10 3 [1 ..< 26] = [21, 22, 23, 24, 25]
   \<and> totalPages (-1) [1 ..< 26] = 1
   \<and> paginatedData (-1) 3 [1 ..< 26] = [1 ..< 26]"
proof -
  have h1: "(0::int) < 10" by simp
  have h2: "(1::int) \<le> 3" by simp
  note p = pagination [OF h1 h2, of "[1 ..< 26]"]
  from p have "(totalPages 10 [1 ..< 26] - 1) * 10 < 25 \<and> 25 \<le> totalPages 10 [1 ..< 26] * 10"
    by simp
  then have t: "totalPages 10 [1 ..< 26] = 3" by arith
  from p have "paginatedData 10 3 [1 ..< 26] = take (nat 10) (drop (nat ((3 - 1) * 10)) [1 ..< 26])"
    by blast
  also have "\<dots> = [21, 22, 23, 24, 25]" by code_simp
  finally have d: "paginatedData 10 3 [1 ..< 26] = [21, 22, 23, 24, 25]" .
  from p t d h1 h2 show ?thesis by blast
qed




text \<open>
  C10. A status edit for an index at which the collection has no row changes nothing:
  the handler of the application returns the state as it is, makes no call and keeps no
  edit in flight. The handler of the table makes no call of the handler of the
  application when the displayed rows have no row at the index, and the index that it
  passes otherwise is an index of the rows that the table was given.
\<close>

theorem edit_out_of_bounds:
  assumes "i < 0 \<or> int (length cdata) \<le> i"
  shows "handleStatusChange_begin cdata cpending i status s = (s, [], None)
       \<and> ((currentPage v - 1) * pageSize v + d < 0
            \<or> int (length (displayData lc rows v)) \<le> (currentPage v - 1) * pageSize v + d
          \<longrightarrow> table_handleStatusChange lc rows v d status confirmed = None)
       \<and> (table_handleStatusChange lc rows v d status confirmed = Some (j, st)
          \<longrightarrow> j < length rows)"
proof -
  from assms have "js_get cdata i = None" by (auto simp: js_get_def)
  then have a: "handleStatusChange_begin cdata cpending i status s = (s, [], None)"
    by (simp add: handleStatusChange_begin_def)
  have b: "table_handleStatusChange lc rows v d status confirmed = None"
    if "(currentPage v - 1) * pageSize v + d < 0
        \<or> int (length (displayData lc rows v)) \<le> (currentPage v - 1) * pageSize v + d"
  proof -
    from that
    have "js_index (displayData lc rows v) ((currentPage v - 1) * pageSize v + d) = None"
      by (auto simp: js_index_def)
    then show ?thesis by (simp add: table_handleStatusChange_def Let_def)
  qed
  have c: "j < length rows"
    if "table_handleStatusChange lc rows v d status confirmed = Some (j, st)"
    using that
    by (auto simp: table_handleStatusChange_def Let_def dest: findIndex_Some
             split: if_splits option.splits)
  from a b c show ?thesis by blast
qed

theorem edit_out_of_bounds_witness:
  "int (length (data sampleState)) \<le> 5
   \<and> handleStatusChange_begin (data sampleState) Map.empty 5 Reserved sampleState
       = (sampleState, [], None)
   \<and> int (length (displayData codeUnitCompare [rowMarketing, rowSupport] initialView))
       \<le> (currentPage initialView - 1) * pageSize initialView + 7
   \<and> table_handleStatusChange codeUnitCompare [rowMarketing, rowSupport] initialView 7
        Reserved True = None"
proof -
  have h1: "int (length (data sampleState)) \<le> 5" by (simp add: sampleState_def)
  have h2: "int (length (displayData codeUnitCompare [rowMarketing, rowSupport] initialView))
            \<le> (currentPage initialView - 1) * pageSize initialView + 7"
    by code_simp
  from edit_out_of_bounds [OF disjI2 [OF h1], of Map.empty Reserved sampleState initialView 7
         codeUnitCompare "[rowMarketing, rowSupport]" True] h1 h2
  show ?thesis by blast
qed

text \<open>
  C2. A status edit for a row whose key is pending is a no-op: the handler returns the
  state as it is, with the same collection and the same pending map, makes no call of
  \<open>updateStatus\<close> and keeps no edit in flight. The pending map is the one that the
  handler reads, which is the map of the rendering that created the handler.
\<close>

theorem pending_edit_is_noop:
  assumes "js_get cdata i = Some r" and "cpending (updateKey_of r) = Some True"
  shows "handleStatusChange_begin cdata cpending i status s = (s, [], None)"
  using assms by (simp add: handleStatusChange_begin_def)

theorem pending_edit_is_noop_witness:
  "js_get (data sampleState) 0 = Some (Row rowMarketing)
   \<and> samplePending (updateKey_of (Row rowMarketing)) = Some True
   \<and> handleStatusChange_begin (data sampleState) samplePending 0 Reserved
        (sampleState\<lparr>pendingUpdates := samplePending\<rparr>)
       = (sampleState\<lparr>pendingUpdates := samplePending\<rparr>, [], None)"
proof -
  have h1: "js_get (data sampleState) 0 = Some (Row rowMarketing)"
    by (simp add: js_get_def sampleState_def)
  have h2: "samplePending (updateKey_of (Row rowMarketing)) = Some True"
    by (simp add: samplePending_def rowMarketing_def)
  from pending_edit_is_noop [where cdata = "data sampleState" and i = 0
         and r = "Row rowMarketing" and cpending = samplePending and status = Reserved
         and s = "sampleState\<lparr>pendingUpdates := samplePending\<rparr>", OF h1 h2] h1 h2
  show ?thesis by blast
qed

text \<open>
  C1. The claim fails on the code when a refresh replaces the collection while
  \<open>updateStatus\<close> is in flight. The first row of \<open>sampleState\<close>, the Marketing row
  with the status \<open>Open\<close>, is set to \<open>Reserved\<close>; a refresh returns the Sales row
  first and the Marketing row, \<open>Reserved\<close>, second; then \<open>updateStatus\<close> fails. The
  \<open>catch\<close> block writes \<open>Open\<close> into the first slot, which now holds the Sales row, and
  the Marketing row, the one that was edited, keeps the status \<open>Reserved\<close>. The key is
  removed from the pending map, one toast, the one of the failure, is shown and
  \<open>fetchSheetData\<close> is called once.
\<close>

theorem update_failure_after_refresh:
  "snd (snd (handleStatusChange_begin (data sampleState) Map.empty 0 Reserved sampleState))
     = Some sampleEdit
   \<and> statusByCallCenter rowMarketing = Open
   \<and> statusByCallCenter rowSales = Reserved
   \<and> data sampleAfterEdit
       = [Some (Row (rowMarketing\<lparr>statusByCallCenter := Reserved\<rparr>)), Some (Row rowSupport)]
   \<and> data sampleAfterRefresh
       = [Some (Row rowSales), Some (Row (rowMarketing\<lparr>statusByCallCenter := Reserved\<rparr>))]
   \<and> data (fst (handleStatusChange_failed sampleEdit sampleAfterRefresh))
       = [Some (Row (rowSales\<lparr>statusByCallCenter := Open\<rparr>)),
          Some (Row (rowMarketing\<lparr>statusByCallCenter := Reserved\<rparr>))]
   \<and> updateKey_of (Row (rowMarketing\<lparr>statusByCallCenter := Reserved\<rparr>)) = updateKey sampleEdit
   \<and> updateKey_of (Row rowSales) \<noteq> updateKey sampleEdit
   \<and> pendingUpdates (fst (handleStatusChange_failed sampleEdit sampleAfterRefresh))
        (updateKey sampleEdit) = None
   \<and> snd (handleStatusChange_failed sampleEdit sampleAfterRefresh)
       = [ShowToast \<lparr>message = ''Failed to update status'', type = error\<rparr>, FetchSheetData]"
proof -
  have b: "snd (snd (handleStatusChange_begin (data sampleState) Map.empty 0 Reserved
                       sampleState)) = Some sampleEdit"
    by (simp add: handleStatusChange_begin_def js_get_def sampleState_def sampleEdit_def
                  rowMarketing_def Let_def)
  have st: "statusByCallCenter rowMarketing = Open \<and> statusByCallCenter rowSales = Reserved"
    by (simp add: rowMarketing_def rowSales_def)
  have e: "data sampleAfterEdit
           = [Some (Row (rowMarketing\<lparr>statusByCallCenter := Reserved\<rparr>)), Some (Row rowSupport)]"
    by (simp add: sampleAfterEdit_def handleStatusChange_begin_def js_get_def js_set_def
                  sampleState_def Let_def)
  have r: "data sampleAfterRefresh
           = [Some (Row rowSales), Some (Row (rowMarketing\<lparr>statusByCallCenter := Reserved\<rparr>))]"
    by (simp add: sampleAfterRefresh_def loadData_resolved_def loadData_finally_def
                  sampleRefresh_def)
  have f: "data (fst (handleStatusChange_failed sampleEdit sampleAfterRefresh))
           = [Some (Row (rowSales\<lparr>statusByCallCenter := Open\<rparr>)),
              Some (Row (rowMarketing\<lparr>statusByCallCenter := Reserved\<rparr>))]"
    by (simp add: failed_state r js_get_def js_set_def sampleEdit_def rowMarketing_def)
  have k: "updateKey_of (Row (rowMarketing\<lparr>statusByCallCenter := Reserved\<rparr>)) = updateKey sampleEdit
           \<and> updateKey_of (Row rowSales) \<noteq> updateKey sampleEdit"
    by (simp add: sampleEdit_def rowMarketing_def rowSales_def)
  have p: "pendingUpdates (fst (handleStatusChange_failed sampleEdit sampleAfterRefresh))
             (updateKey sampleEdit) = None"
    by (simp add: failed_state)
  from b st e r f k p failed_effects [of sampleEdit sampleAfterRefresh]
  show ?thesis by blast
qed

end
